theory Spec2Isabelle
  imports Main
begin

section \<open>goequal: a generator of Equal functions for Go types\<close>

text \<open>
  The development embeds \<^verbatim>\<open>equal/equal.go\<close>. Go strings are byte sequences and are
  modelled as \<^typ>\<open>string\<close>; \<^verbatim>\<open>unicode.IsLetter\<close> and \<^verbatim>\<open>unicode.IsDigit\<close> are
  modelled on ASCII. \<^verbatim>\<open>log.Fatalf\<close> and run-time panics are values of the type
  \<open>error\<close>; every function that can reach one returns \<open>error + 'a\<close>.
\<close>

subsection \<open>Errors\<close>

datatype error =
    OutOfFuel
  | Panic
  | CannotDetermineGOROOT
  | CannotProcessPackage string
  | ReadFile string
  | ParsingFile string
  | ImportsUnderTwoNames string string string string
  | CheckingPackage string
  | TypeNotFound string string
  | WrongVariableName string

definition bindE :: "error + 'a \<Rightarrow> ('a \<Rightarrow> error + 'b) \<Rightarrow> error + 'b" where
  "bindE m f = (case m of Inl e \<Rightarrow> Inl e | Inr x \<Rightarrow> f x)"

subsection \<open>String primitives of the Go library\<close>

definition isDigit :: "char \<Rightarrow> bool" where
  "isDigit c = (c \<in> set ''0123456789'')"

definition isLetter :: "char \<Rightarrow> bool" where
  "isLetter c = (c \<in> set ''abcdefghijklmnopqrstuvwxyzABCDEFGHIJKLMNOPQRSTUVWXYZ'')"

definition HasPrefix :: "string \<Rightarrow> string \<Rightarrow> bool" where
  "HasPrefix s p = (take (length p) s = p)"

text \<open>\<^verbatim>\<open>s[lo:hi]\<close>; out of range is a panic, here \<open>None\<close>.\<close>

definition slice :: "string \<Rightarrow> int \<Rightarrow> int \<Rightarrow> string option" where
  "slice s lo hi =
     (if 0 \<le> lo \<and> lo \<le> hi \<and> hi \<le> int (length s)
      then Some (take (nat (hi - lo)) (drop (nat lo) s)) else None)"

text \<open>\<^verbatim>\<open>strings.LastIndex\<close>: the index of the last occurrence, or -1.\<close>

fun LastIndex_from :: "string \<Rightarrow> string \<Rightarrow> nat \<Rightarrow> int \<Rightarrow> int" where
  "LastIndex_from [] sub i acc = (if sub = [] then int i else acc)"
| "LastIndex_from (c # cs) sub i acc =
     LastIndex_from cs sub (Suc i) (if HasPrefix (c # cs) sub then int i else acc)"

definition LastIndex :: "string \<Rightarrow> string \<Rightarrow> int" where
  "LastIndex s sub = LastIndex_from s sub 0 (- 1)"

definition digitVal :: "char \<Rightarrow> nat" where
  "digitVal c = of_char c - 48"

fun digitsVal :: "string \<Rightarrow> nat \<Rightarrow> nat" where
  "digitsVal [] acc = acc"
| "digitsVal (c # cs) acc = digitsVal cs (10 * acc + digitVal c)"

text \<open>\<^verbatim>\<open>strconv.Atoi\<close>: an optional sign, then decimal digits, within 64 bits.\<close>

definition Atoi :: "string \<Rightarrow> int option" where
  "Atoi s =
     (let neg = (s \<noteq> [] \<and> hd s = CHR ''-'');
          ds = (if s \<noteq> [] \<and> (hd s = CHR ''-'' \<or> hd s = CHR ''+'') then tl s else s)
      in if ds = [] \<or> \<not> list_all isDigit ds then None
         else (let v = (if neg then - int (digitsVal ds 0) else int (digitsVal ds 0))
               in if - (2 ^ 63) \<le> v \<and> v < 2 ^ 63 then Some v else None))"

definition digitChar :: "nat \<Rightarrow> char" where
  "digitChar d = char_of (48 + d)"

text \<open>\<^verbatim>\<open>fmt.Sprintf("%d", n)\<close>.\<close>

fun showNat :: "nat \<Rightarrow> string" where
  "showNat n = (if n < 10 then [digitChar n] else showNat (n div 10) @ [digitChar (n mod 10)])"

declare showNat.simps [simp del]

definition showInt :: "int \<Rightarrow> string" where
  "showInt i = (if i < 0 then CHR ''-'' # showNat (nat (- i)) else showNat (nat i))"

subsection \<open>The naming engine\<close>

text \<open>
  \<^verbatim>\<open>findNextUsableIndex\<close>: the loop runs \<open>i\<close> from \<open>len(name) - 1\<close> down to 1. At a
  closing bracket not directly after an opening one it records the position and jumps
  back by the length of \<open>"[" + key\<close>.
\<close>

function fnui_loop :: "string \<Rightarrow> string \<Rightarrow> int \<Rightarrow> int \<Rightarrow> error + int" where
  "fnui_loop name key i rsb =
     (let searched = CHR ''['' # key; searchedLength = int (length searched) in
      if i > 0 then
        (if i < int (length name) then
           (if name ! nat i = CHR '']'' \<and> name ! nat (i - 1) \<noteq> CHR ''[''
            then fnui_loop name key (i - searchedLength) i
            else if rsb > - 1 then
              (case slice name i (i + searchedLength) of
                 None \<Rightarrow> Inl Panic
               | Some sub \<Rightarrow>
                   if sub = searched then
                     (case slice name (i + searchedLength) rsb of
                        None \<Rightarrow> Inl Panic
                      | Some num \<Rightarrow>
                          (case Atoi num of
                             Some index \<Rightarrow> Inr (index + 1)
                           | None \<Rightarrow> fnui_loop name key (i - 1) rsb))
                   else fnui_loop name key (i - 1) rsb)
            else fnui_loop name key (i - 1) rsb)
         else Inl Panic)
      else Inr 1)"
  by pat_completeness auto
termination
  by (relation "measure (\<lambda>(name, key, i, rsb). nat i)") auto

declare fnui_loop.simps [simp del]

definition findNextUsableIndex :: "string \<Rightarrow> string \<Rightarrow> error + int" where
  "findNextUsableIndex name key = fnui_loop name key (int (length name) - 1) (- 1)"

text \<open>
  \<^verbatim>\<open>findLastUnpairedParantheses\<close>: \<open>starts\<close> is the stack of open positions;
  popping the empty stack is a slice-bounds panic.
\<close>

fun flup_loop :: "string \<Rightarrow> nat \<Rightarrow> nat list \<Rightarrow> nat list option" where
  "flup_loop [] i starts = Some starts"
| "flup_loop (r # s) i starts =
     (if r = CHR ''('' then flup_loop s (Suc i) (starts @ [i])
      else if r = CHR '')'' then
        (if starts = [] then None else flup_loop s (Suc i) (butlast starts))
      else flup_loop s (Suc i) starts)"

definition findLastUnpairedParantheses :: "string \<Rightarrow> error + int" where
  "findLastUnpairedParantheses s =
     (case flup_loop s 0 [] of
        None \<Rightarrow> Inl Panic
      | Some starts \<Rightarrow> Inr (if starts \<noteq> [] then int (last starts) else - 1))"

definition isIdentChar :: "char \<Rightarrow> bool" where
  "isIdentChar r = (isLetter r \<or> isDigit r \<or> r = CHR ''_'')"

text \<open>The second half of \<^verbatim>\<open>getNames\<close>: the variable name inside \<open>name\<close>.\<close>

definition getNames_var :: "string \<Rightarrow> bool \<Rightarrow> error + string \<times> string" where
  "getNames_var name isType =
     (let pre = takeWhile (\<lambda>r. \<not> isIdentChar r) name;
          rest = dropWhile (\<lambda>r. \<not> isIdentChar r) name;
          post = dropWhile isIdentChar rest
      in if rest = [] then Inl (WrongVariableName name)
         else if isType then Inr (pre @ ''t1'' @ post, pre @ ''t2'' @ post)
         else Inr (pre @ ''t1.'' @ rest, pre @ ''t2.'' @ rest))"

definition getNames :: "string \<Rightarrow> bool \<Rightarrow> error + string \<times> string" where
  "getNames name isType =
     (let i = LastIndex name ''[key'' in
      if i > - 1 then
        (let after = drop (nat i + 4) name;
             keyNumber = takeWhile isDigit after;
             stop = dropWhile isDigit after
         in case stop of
              [] \<Rightarrow> getNames_var name isType
            | r # suffix \<Rightarrow>
                if r = CHR '']'' then
                  bindE (if CHR '')'' \<in> set suffix
                         then bindE (findLastUnpairedParantheses (take (nat i) name))
                                (\<lambda>start. Inr (if start > - 1 then take (nat start + 2) name else []))
                         else Inr [])
                    (\<lambda>prefix. Inr (prefix @ ''value'' @ keyNumber @ ''1'' @ suffix,
                                   prefix @ ''value'' @ keyNumber @ ''2'' @ suffix))
                else getNames_var name isType)
      else getNames_var name isType)"

subsection \<open>Go types and the packages on disk\<close>

text \<open>
  The implementations of \<^verbatim>\<open>types.Type\<close>. The generator never looks at the kind of a
  basic type other than for \<^verbatim>\<open>types.Byte\<close>, which is \<^verbatim>\<open>types.Uint8\<close>, at the length of
  an array, or inside a channel, a function signature or an interface. A named type
  carries its package path and name; its underlying type is looked up in its package.
\<close>

datatype BasicKind =
    KBool | KInt | KInt8 | KInt16 | KInt32 | KInt64
  | KUint | KUint8 | KUint16 | KUint32 | KUint64 | KUintptr
  | KFloat32 | KFloat64 | KComplex64 | KComplex128 | KString | KUnsafePointer

datatype gotype =
    Basic BasicKind
  | Named string string
  | Struct "(string \<times> gotype) list"
  | Slice gotype
  | Array nat gotype
  | Map gotype gotype
  | Pointer gotype
  | Interface
  | Chan
  | Signature
  | Tuple

text \<open>
  The file system and the Go tool chain, as far as the generator reads them. A file
  has a base name, the content \<^verbatim>\<open>ioutil.ReadFile\<close> returns (\<open>None\<close> when it fails), and
  the import specs \<^verbatim>\<open>parser.ParseFile\<close> finds in it (\<open>None\<close> when it fails), each a pair of
  the local name, empty when the spec has none, and the import path without its quotes.
  For a package path \<^verbatim>\<open>build.Default.Import\<close> gives the package name, its directory
  and its Go and cgo files; the type checker accepts the package or not, and gives the
  underlying type of each named type it defines. \<open>GOROOT\<close> is what \<^verbatim>\<open>getGOROOT\<close> returns,
  \<open>None\<close> when the \<^verbatim>\<open>go\<close> command fails.
\<close>

record srcfile =
  file_name :: string
  file_content :: "string option"
  file_imports :: "(string \<times> string) list option"

record pkgsrc =
  src_name :: string
  src_dir :: string
  src_GoFiles :: "srcfile list"
  src_CgoFiles :: "srcfile list"
  src_typechecks :: bool
  src_types :: "string \<Rightarrow> gotype option"

record world =
  GOROOT :: "string option"
  Import :: "string \<Rightarrow> pkgsrc option"

text \<open>
  The test input of \<^verbatim>\<open>NewGenerator\<close> maps a package path to source text that stands for
  the package: what the parser finds in it, and what the type checker makes of it.
\<close>

record testsrc =
  test_imports :: "(string \<times> string) list option"
  test_typechecks :: bool
  test_types :: "string \<Rightarrow> gotype option"

subsection \<open>The data of the generator\<close>

datatype Type = Type (type_name: string) (type_pkgPath: string)

text \<open>\<open>code_pkg\<close> is the package path under which the package object is stored in \<open>g_defs\<close>.\<close>

record code =
  code_typeName :: string
  code_pkg :: string
  code_code :: string
  code_imports :: "string set"
  code_stdImports :: "string list"

definition newCode :: "string \<Rightarrow> string \<Rightarrow> code" where
  "newCode typeName p =
     \<lparr>code_typeName = typeName, code_pkg = p, code_code = [], code_imports = {},
      code_stdImports = []\<rparr>"

record pkg =
  pkg_name :: string
  pkg_path :: string
  pkg_dir :: string
  pkg_input :: "testsrc option"
  pkg_defs :: "(string \<Rightarrow> gotype option) option"
  pkg_imports :: "string \<Rightarrow> string option"

definition newPkg :: "string \<Rightarrow> testsrc option \<Rightarrow> pkg" where
  "newPkg path input =
     \<lparr>pkg_name = [], pkg_path = path, pkg_dir = [], pkg_input = input, pkg_defs = None,
      pkg_imports = Map.empty\<rparr>"

text \<open>
  \<open>g_equals\<close> holds pointers to code objects: \<open>g_codes\<close> is the store of the objects that
  \<^verbatim>\<open>newCode\<close> has allocated, and an address is an index into it.
\<close>

record Generator =
  g_pkgPath :: string
  g_typeName :: string
  g_input :: "string \<Rightarrow> testsrc option"
  g_defs :: "string \<Rightarrow> pkg option"
  g_codes :: "code list"
  g_equals :: "Type \<Rightarrow> nat option"
  g_equalsOrder :: "Type list"
  g_usedTypes :: "Type list"

definition NewGenerator :: "string \<Rightarrow> string \<Rightarrow> (string \<Rightarrow> testsrc option) \<Rightarrow> Generator" where
  "NewGenerator pkgPath typeName input =
     \<lparr>g_pkgPath = pkgPath, g_typeName = typeName, g_input = input, g_defs = Map.empty,
      g_codes = [], g_equals = Map.empty, g_equalsOrder = [], g_usedTypes = []\<rparr>"

subsection \<open>Packages\<close>

fun check_imports ::
  "string \<Rightarrow> (string \<Rightarrow> string option) \<Rightarrow> (string \<times> string) list \<Rightarrow> error + (string \<Rightarrow> string option)"
where
  "check_imports ppath imports [] = Inr imports"
| "check_imports ppath imports ((importName, path) # specs) =
     (case imports path of
        Some oldImportName \<Rightarrow>
          if oldImportName \<noteq> importName
          then Inl (ImportsUnderTwoNames ppath path oldImportName importName)
          else check_imports ppath imports specs
      | None \<Rightarrow> check_imports ppath (imports(path \<mapsto> importName)) specs)"

text \<open>The comment that starts a generated file.\<close>

definition header :: string where
  "header = ''// Code generated by goequal for type:''"

text \<open>\<^verbatim>\<open>strings.Index\<close>: the index of the first occurrence, or -1.\<close>

fun Index_from :: "string \<Rightarrow> string \<Rightarrow> nat \<Rightarrow> int" where
  "Index_from [] sub i = (if sub = [] then int i else - 1)"
| "Index_from (c # cs) sub i =
     (if HasPrefix (c # cs) sub then int i else Index_from cs sub (Suc i))"

definition Index :: "string \<Rightarrow> string \<Rightarrow> int" where
  "Index s sub = Index_from s sub 0"

text \<open>
  \<^verbatim>\<open>testDiscover\<close>, for a package given as test input: its name is the path after the
  first slash and its one file is \<^verbatim>\<open>test.go\<close>, which the parser reads from the input.
\<close>

definition testDiscover :: "pkg \<Rightarrow> pkg \<times> srcfile list" where
  "testDiscover p =
     (p\<lparr>pkg_name := drop (nat (Index (pkg_path p) ''/'' + 1)) (pkg_path p)\<rparr>,
      [\<lparr>file_name = ''test.go'', file_content = None, file_imports = None\<rparr>])"

text \<open>
  \<^verbatim>\<open>discover\<close>: the Go files of the package, without the files named \<^verbatim>\<open>goequal_...\<close> that
  start with the header of a generated file, and then the cgo files.
\<close>

fun discover_loop :: "srcfile list \<Rightarrow> srcfile list \<Rightarrow> error + srcfile list" where
  "discover_loop [] files = Inr files"
| "discover_loop (f # GoFiles) files =
     (if HasPrefix (file_name f) ''goequal_'' then
        (case file_content f of
           None \<Rightarrow> Inl (ReadFile (file_name f))
         | Some content \<Rightarrow>
             if HasPrefix content header then discover_loop GoFiles files
             else discover_loop GoFiles (files @ [f]))
      else discover_loop GoFiles (files @ [f]))"

definition discover :: "world \<Rightarrow> pkg \<Rightarrow> error + pkg \<times> srcfile list" where
  "discover w p =
     (case Import w (pkg_path p) of
        None \<Rightarrow> Inl (CannotProcessPackage (pkg_path p))
      | Some pkgObj \<Rightarrow>
          bindE (discover_loop (src_GoFiles pkgObj) [])
            (\<lambda>files. Inr (p\<lparr>pkg_name := src_name pkgObj, pkg_dir := src_dir pkgObj\<rparr>,
                           files @ src_CgoFiles pkgObj)))"

text \<open>
  The loop of \<^verbatim>\<open>check\<close> over the files: each is parsed, from the test input when the
  package has one, and its import specs are entered into the imports of the package.
\<close>

definition ParseFile :: "testsrc option \<Rightarrow> srcfile \<Rightarrow> (string \<times> string) list option" where
  "ParseFile input f = (case input of None \<Rightarrow> file_imports f | Some src \<Rightarrow> test_imports src)"

fun check_files ::
  "string \<Rightarrow> testsrc option \<Rightarrow> (string \<Rightarrow> string option) \<Rightarrow> srcfile list
     \<Rightarrow> error + (string \<Rightarrow> string option)"
where
  "check_files ppath input imports [] = Inr imports"
| "check_files ppath input imports (f # files) =
     (case ParseFile input f of
        None \<Rightarrow> Inl (ParsingFile (file_name f))
      | Some specs \<Rightarrow>
          bindE (check_imports ppath imports specs)
            (\<lambda>imports'. check_files ppath input imports' files))"

text \<open>\<^verbatim>\<open>config.Check\<close> on the parsed files: the definitions of the package.\<close>

definition typesCheck :: "world \<Rightarrow> pkg \<Rightarrow> error + (string \<Rightarrow> gotype option)" where
  "typesCheck w p =
     (case pkg_input p of
        Some src \<Rightarrow>
          if test_typechecks src then Inr (test_types src)
          else Inl (CheckingPackage (pkg_path p))
      | None \<Rightarrow>
          (case Import w (pkg_path p) of
             None \<Rightarrow> Inl (CheckingPackage (pkg_path p))
           | Some pkgObj \<Rightarrow>
               if src_typechecks pkgObj then Inr (src_types pkgObj)
               else Inl (CheckingPackage (pkg_path p))))"

definition check :: "world \<Rightarrow> pkg \<Rightarrow> error + pkg" where
  "check w p =
     bindE (if pkg_input p \<noteq> None then Inr (testDiscover p) else discover w p)
       (\<lambda>(p1, files).
          bindE (check_files (pkg_path p1) (pkg_input p1) (pkg_imports p1) files)
            (\<lambda>imports'.
               bindE (typesCheck w p1)
                 (\<lambda>defs. Inr (p1\<lparr>pkg_imports := imports', pkg_defs := Some defs\<rparr>))))"

text \<open>\<^verbatim>\<open>pkg.findObj\<close> returns the underlying type of the named type and the package object.\<close>

definition pkg_findObj :: "world \<Rightarrow> pkg \<Rightarrow> string \<Rightarrow> error + gotype \<times> pkg" where
  "pkg_findObj w p name =
     bindE (if pkg_defs p = None then check w p else Inr p)
       (\<lambda>p'. case pkg_defs p' of
                None \<Rightarrow> Inl (TypeNotFound name (pkg_path p'))
              | Some defs \<Rightarrow>
                  (case defs name of
                     Some typ \<Rightarrow> Inr (typ, p')
                   | None \<Rightarrow> Inl (TypeNotFound name (pkg_path p'))))"

definition findObj :: "world \<Rightarrow> Generator \<Rightarrow> Type \<Rightarrow> error + gotype \<times> Generator" where
  "findObj w g myType =
     (let pkgObj = (case g_defs g (type_pkgPath myType) of
                      None \<Rightarrow> newPkg (type_pkgPath myType) (g_input g (type_pkgPath myType))
                    | Some p \<Rightarrow> p)
      in bindE (pkg_findObj w pkgObj (type_name myType))
           (\<lambda>(typ, p'). Inr (typ, g\<lparr>g_defs := (g_defs g)(type_pkgPath myType \<mapsto> p')\<rparr>)))"

definition getGOROOT :: "world \<Rightarrow> error + string" where
  "getGOROOT w = (case GOROOT w of None \<Rightarrow> Inl CannotDetermineGOROOT | Some goroot \<Rightarrow> Inr goroot)"

definition buildDefault :: "world \<Rightarrow> Generator \<Rightarrow> string \<Rightarrow> error + string \<times> string" where
  "buildDefault w g pkgPath =
     (case g_input g pkgPath of
        Some src \<Rightarrow> Inr (pkgPath, pkgPath)
      | None \<Rightarrow>
          (case Import w pkgPath of
             None \<Rightarrow> Inl (CannotProcessPackage pkgPath)
           | Some pkgObj \<Rightarrow> Inr (src_dir pkgObj, src_name pkgObj)))"

subsection \<open>References and imports\<close>

definition getReferencedPackageName :: "world \<Rightarrow> Generator \<Rightarrow> string \<Rightarrow> error + string" where
  "getReferencedPackageName w g pkgPath =
     (if g_usedTypes g = [] then Inl Panic
      else let currentPackagePath = type_pkgPath (last (g_usedTypes g)) in
        if pkgPath = currentPackagePath then Inr []
        else (case g_defs g currentPackagePath of
                None \<Rightarrow> Inl Panic
              | Some cur \<Rightarrow>
                  (let referencePackageName =
                         (case pkg_imports cur pkgPath of None \<Rightarrow> [] | Some n \<Rightarrow> n)
                   in if referencePackageName = [] then
                        (case g_defs g pkgPath of
                           None \<Rightarrow> bindE (buildDefault w g pkgPath) (\<lambda>(d, n). Inr n)
                         | Some pkgObj \<Rightarrow> Inr (pkg_name pkgObj))
                      else Inr referencePackageName)))"

definition add_import :: "string \<Rightarrow> code \<Rightarrow> code" where
  "add_import pkgPath c = c\<lparr>code_imports := insert pkgPath (code_imports c)\<rparr>"

definition getReferenceUpdateImports ::
  "world \<Rightarrow> Generator \<Rightarrow> string \<Rightarrow> string \<Rightarrow> error + string \<times> Generator"
where
  "getReferenceUpdateImports w g pkgPath name =
     bindE (getReferencedPackageName w g pkgPath)
       (\<lambda>referencedPackageName.
          if referencedPackageName = [] then Inr (name, g)
          else (case g_equals g (last (g_usedTypes g)) of
                  None \<Rightarrow> Inl Panic
                | Some a \<Rightarrow>
                    (let g' = g\<lparr>g_codes := (g_codes g)[a := add_import pkgPath (g_codes g ! a)]\<rparr>
                     in if referencedPackageName = ''.'' then Inr (name, g')
                        else Inr (referencedPackageName @ ''.'' @ name, g'))))"

definition getEqualFunctionName ::
  "world \<Rightarrow> Generator \<Rightarrow> gotype \<Rightarrow> error + (bool \<times> string) \<times> Generator"
where
  "getEqualFunctionName w g typ =
     (case typ of
        Named pkgPath n \<Rightarrow>
          bindE (buildDefault w g pkgPath) (\<lambda>(dir, nm).
          bindE (getGOROOT w) (\<lambda>goroot.
            if HasPrefix dir goroot then Inr ((True, []), g) else Inr ((False, []), g)))
      | Interface \<Rightarrow>
          bindE (getReferenceUpdateImports w g ''reflect'' ''DeepEqual'')
            (\<lambda>(r, g'). Inr ((True, r), g'))
      | Chan \<Rightarrow> Inr ((True, []), g)
      | Signature \<Rightarrow> Inr ((True, []), g)
      | _ \<Rightarrow> Inr ((False, []), g))"

definition isPointer :: "gotype \<Rightarrow> bool" where
  "isPointer typ =
     (case typ of
        Basic k \<Rightarrow> True | Map k e \<Rightarrow> True | Slice e \<Rightarrow> True | Pointer e \<Rightarrow> True
      | Interface \<Rightarrow> True | Chan \<Rightarrow> True | Signature \<Rightarrow> True
      | _ \<Rightarrow> False)"

definition getArgs :: "string \<Rightarrow> string \<Rightarrow> bool \<Rightarrow> bool \<Rightarrow> string \<times> string \<times> bool" where
  "getArgs name1 name2 isPtr isPointerReference =
     (if isPtr then
        (if isPointerReference
         then (''(*'' @ name1 @ '')'', ''(*'' @ name2 @ '')'', True)
         else (name1, name2, False))
      else
        (if \<not> isPointerReference
         then (''(&'' @ name1 @ '')'', ''(&'' @ name2 @ '')'', False)
         else (name1, name2, False)))"

subsection \<open>The code synthesizer\<close>

text \<open>
  The functions of the generator call each other recursively through \<^verbatim>\<open>parseType\<close>.
  Each of them is written here with the recursive call as its first parameter \<open>rec\<close>;
  \<open>parseType\<close> closes the recursion. No bound on the recursion is visible in the
  source, so \<open>parseType\<close> takes the depth of recursion it may use and returns
  \<open>OutOfFuel\<close> when it is exhausted.
\<close>

type_synonym parser =
  "Generator \<Rightarrow> string \<Rightarrow> gotype \<Rightarrow> bool \<Rightarrow> bool \<Rightarrow> error + string \<times> Generator"

definition typeDefHeader :: "string \<Rightarrow> gotype \<Rightarrow> string" where
  "typeDefHeader n typ =
     (if isPointer typ
      then ''func Equal'' @ n @ ''(t1, t2 '' @ n @ '') bool {\<newline>''
      else ''func Equal'' @ n @ ''(t1, t2 *'' @ n @ '') bool {\<newline>'' @
           ''if t1 == t2 {\<newline>return true\<newline>}\<newline>if t1 == nil || t2 == nil {\<newline>return false\<newline>}\<newline>'')"

definition parseTypeDef :: "parser \<Rightarrow> Generator \<Rightarrow> Type \<Rightarrow> gotype \<Rightarrow> error + Generator" where
  "parseTypeDef rec g myType typ =
     (let a = length (g_codes g);
          g1 = g\<lparr>g_codes := g_codes g @ [newCode (type_name myType) (type_pkgPath myType)],
                 g_equals := (g_equals g)(myType \<mapsto> a),
                 g_usedTypes := g_usedTypes g @ [myType]\<rparr>
      in bindE (rec g1 (type_name myType) typ True False)
           (\<lambda>(body, g2).
              if g_usedTypes g2 = [] then Inl Panic
              else Inr (g2\<lparr>g_codes := (g_codes g2)
                               [a := (g_codes g2 ! a)
                                  \<lparr>code_code := typeDefHeader (type_name myType) typ @ body @
                                       ''return true\<newline>}''\<rparr>],
                            g_equalsOrder := g_equalsOrder g2 @ [myType],
                            g_usedTypes := butlast (g_usedTypes g2)\<rparr>)))"

definition callCheck :: "string \<Rightarrow> string \<Rightarrow> string \<Rightarrow> string" where
  "callCheck f a b = ''if !'' @ f @ ''('' @ a @ '', '' @ b @ '') {\<newline>return false\<newline>}\<newline>''"

definition parseNamed ::
  "world \<Rightarrow> parser \<Rightarrow> Generator \<Rightarrow> string \<Rightarrow> string \<Rightarrow> string \<Rightarrow> bool \<Rightarrow> bool
     \<Rightarrow> error + string \<times> Generator"
where
  "parseNamed w rec g name pkgPath n isType isPointerReference =
     bindE (getNames name isType) (\<lambda>(name1, name2).
     let myType = Type n pkgPath in
     bindE (case g_equals g myType of
              None \<Rightarrow> bindE (findObj w g myType) (\<lambda>(obj, g1). parseTypeDef rec g1 myType obj)
            | Some myCode \<Rightarrow> Inr g) (\<lambda>g2.
     bindE (getReferenceUpdateImports w g2 pkgPath (''Equal'' @ n)) (\<lambda>(funcName, g3).
     bindE (findObj w g3 myType) (\<lambda>(obj, g4).
     let (callName1, callName2, isDereferenced) =
           getArgs name1 name2 (isPointer obj) isPointerReference;
         funcCall = callCheck funcName callName1 callName2
     in if isDereferenced
        then Inr (''if '' @ name1 @ '' != '' @ name2 @ ''{\<newline>if '' @ name1 @ '' == nil || '' @
                  name2 @ '' == nil {\<newline>return false\<newline>}\<newline>'' @ funcCall @ ''}\<newline>'', g4)
        else Inr (funcCall, g4)))))"

fun parseStruct_loop ::
  "parser \<Rightarrow> Generator \<Rightarrow> (string \<times> gotype) list \<Rightarrow> string \<Rightarrow> error + string \<times> Generator"
where
  "parseStruct_loop rec g [] result = Inr (result, g)"
| "parseStruct_loop rec g ((fname, ftype) # flds) result =
     bindE (rec g fname ftype False False)
       (\<lambda>(s, g'). parseStruct_loop rec g' flds (result @ s))"

definition parseStruct ::
  "parser \<Rightarrow> Generator \<Rightarrow> (string \<times> gotype) list \<Rightarrow> error + string \<times> Generator"
where
  "parseStruct rec g flds = parseStruct_loop rec g flds []"

definition lenCheck :: "string \<Rightarrow> string \<Rightarrow> string" where
  "lenCheck name1 name2 =
     ''if len('' @ name1 @ '') != len('' @ name2 @ '') {\<newline>return false\<newline>}\<newline>''"

definition neCheck :: "string \<Rightarrow> string \<Rightarrow> string" where
  "neCheck name1 name2 = ''if '' @ name1 @ '' != '' @ name2 @ '' {\<newline>return false\<newline>}\<newline>''"

definition customCheck :: "string \<Rightarrow> string \<Rightarrow> string \<Rightarrow> string" where
  "customCheck f a b = ''if !'' @ f @ ''('' @ a @ '', '' @ b @ '') {\<newline> return false\<newline>}\<newline>''"

definition forRange :: "string \<Rightarrow> string \<Rightarrow> string \<Rightarrow> string" where
  "forRange indexName name1 body =
     ''for '' @ indexName @ '' := range '' @ name1 @ '' {\<newline>'' @ body @ ''}\<newline>''"

definition parseSlice ::
  "world \<Rightarrow> parser \<Rightarrow> Generator \<Rightarrow> string \<Rightarrow> gotype \<Rightarrow> bool \<Rightarrow> error + string \<times> Generator"
where
  "parseSlice w rec g name elem isType =
     bindE (getNames name isType) (\<lambda>(name1, name2).
     bindE (getEqualFunctionName w g elem) (\<lambda>((ok, customCall), g1).
     if ok \<and> customCall = [] then Inr (lenCheck name1 name2, g1)
     else if elem = Basic KUint8 then
       bindE (getReferenceUpdateImports w g1 ''bytes'' ''Equal'')
         (\<lambda>(funcName, g2). Inr (customCheck funcName name1 name2, g2))
     else
       bindE (findNextUsableIndex name ''i'') (\<lambda>index.
       let indexName = ''i'' @ showInt index;
           referenceName = name @ ''['' @ indexName @ '']''
       in bindE (rec g1 referenceName elem isType False)
            (\<lambda>(body, g2). Inr (lenCheck name1 name2 @ forRange indexName name1 body, g2)))))"

definition parseArray ::
  "world \<Rightarrow> parser \<Rightarrow> Generator \<Rightarrow> string \<Rightarrow> gotype \<Rightarrow> bool \<Rightarrow> bool
     \<Rightarrow> error + string \<times> Generator"
where
  "parseArray w rec g name0 elem isType isPointerReference =
     bindE (getEqualFunctionName w g elem) (\<lambda>((ok, customCall), g1).
     if ok \<and> customCall = [] then Inr ([], g1)
     else
       let name = (if isType \<and> \<not> isPointerReference then ''(*'' @ name0 @ '')'' else name0) in
       bindE (getNames name isType) (\<lambda>(name1, name2).
       case elem of
         Basic k \<Rightarrow> Inr (neCheck name1 name2, g1)
       | _ \<Rightarrow>
           bindE (findNextUsableIndex name ''i'') (\<lambda>index.
           let indexName = ''i'' @ showInt index;
               referenceName = name @ ''['' @ indexName @ '']''
           in bindE (rec g1 referenceName elem isType False)
                (\<lambda>(body, g2). Inr (forRange indexName name1 body, g2)))))"

definition parseMap ::
  "world \<Rightarrow> parser \<Rightarrow> Generator \<Rightarrow> string \<Rightarrow> gotype \<Rightarrow> bool \<Rightarrow> error + string \<times> Generator"
where
  "parseMap w rec g name elem isType =
     bindE (getNames name isType) (\<lambda>(name1, name2).
     bindE (findNextUsableIndex name ''key'') (\<lambda>index.
     let keyName = ''key'' @ showInt index;
         newName = name @ ''['' @ keyName @ '']''
     in
     bindE (getNames newName isType) (\<lambda>(value1, value2).
     bindE (getEqualFunctionName w g elem) (\<lambda>((ok, customCall), g1).
     if ok \<and> customCall = [] then
       Inr (lenCheck name1 name2 @
            ''for '' @ keyName @ '' := range '' @ name1 @ '' {\<newline>if _, ok := '' @ name2 @ ''['' @
            keyName @ '']; !ok {\<newline>return false\<newline>}\<newline>}\<newline>'', g1)
     else
       bindE (rec g1 newName elem isType False)
         (\<lambda>(body, g2).
            Inr (lenCheck name1 name2 @
                 ''for '' @ keyName @ '', '' @ value1 @ '' := range '' @ name1 @ '' {\<newline>if '' @
                 value2 @ '', ok := '' @ name2 @ ''['' @ keyName @
                 '']; !ok {\<newline>return false\<newline>} else {\<newline>'' @ body @ ''}\<newline>}\<newline>'', g2))))))"

definition nilGuard :: "string \<Rightarrow> string \<Rightarrow> string \<Rightarrow> string" where
  "nilGuard name1 name2 body =
     ''if '' @ name1 @ '' != '' @ name2 @ '' {\<newline>if '' @ name1 @ '' == nil || '' @ name2 @
     '' == nil {\<newline>return false\<newline>}\<newline>'' @ body @ ''}\<newline>''"

definition parsePointer ::
  "world \<Rightarrow> parser \<Rightarrow> Generator \<Rightarrow> string \<Rightarrow> gotype \<Rightarrow> bool \<Rightarrow> error + string \<times> Generator"
where
  "parsePointer w rec g name elem isType =
     bindE (getNames name isType) (\<lambda>(name1, name2).
     bindE (getEqualFunctionName w g elem) (\<lambda>((ok, customCall), g1).
     if ok \<and> customCall = [] then Inr (nilGuard name1 name2 [], g1)
     else
       (case elem of
          Named pkgPath n \<Rightarrow> rec g1 name elem isType True
        | _ \<Rightarrow>
            bindE (rec g1 (''(*'' @ name @ '')'') elem isType True)
              (\<lambda>(resultParseType, g2). Inr (nilGuard name1 name2 resultParseType, g2)))))"

primrec parseType ::
  "nat \<Rightarrow> world \<Rightarrow> Generator \<Rightarrow> string \<Rightarrow> gotype \<Rightarrow> bool \<Rightarrow> bool \<Rightarrow> error + string \<times> Generator"
where
  "parseType 0 w g name typ isType isPointerReference = Inl OutOfFuel"
| "parseType (Suc fuel) w g name typ isType isPointerReference =
     bindE (getEqualFunctionName w g typ) (\<lambda>((ok, customCall), g1).
     if ok then
       (if customCall = [] then Inr ([], g1)
        else bindE (getNames name isType)
               (\<lambda>(name1, name2). Inr (customCheck customCall name1 name2, g1)))
     else
       (case typ of
          Named pkgPath n \<Rightarrow>
            parseNamed w (parseType fuel w) g1 name pkgPath n isType isPointerReference
        | Struct flds \<Rightarrow> parseStruct (parseType fuel w) g1 flds
        | Basic k \<Rightarrow>
            bindE (getNames name isType) (\<lambda>(name1, name2). Inr (neCheck name1 name2, g1))
        | Slice elem \<Rightarrow> parseSlice w (parseType fuel w) g1 name elem isType
        | Array len elem \<Rightarrow>
            parseArray w (parseType fuel w) g1 name elem isType isPointerReference
        | Map k elem \<Rightarrow> parseMap w (parseType fuel w) g1 name elem isType
        | Pointer elem \<Rightarrow> parsePointer w (parseType fuel w) g1 name elem isType
        | _ \<Rightarrow> Inr ([], g1)))"

definition parse :: "nat \<Rightarrow> world \<Rightarrow> Generator \<Rightarrow> error + Generator" where
  "parse fuel w g =
     (let myType = Type (g_typeName g) (g_pkgPath g) in
      bindE (findObj w g myType)
        (\<lambda>(obj, g1). parseTypeDef (parseType fuel w) g1 myType obj))"

text \<open>
  \<^verbatim>\<open>Generate\<close> parses and then serializes and writes the code object of each type of
  \<open>g_equalsOrder\<close>, in that order; the result here is the list of the code objects it
  serializes. A fatal error during the parse ends the process before anything is
  written.
\<close>

fun serialize_all :: "Generator \<Rightarrow> Type list \<Rightarrow> error + code list" where
  "serialize_all g [] = Inr []"
| "serialize_all g (myType # rest) =
     (case g_equals g myType of
        None \<Rightarrow> Inl Panic
      | Some a \<Rightarrow>
          if a < length (g_codes g)
          then bindE (serialize_all g rest) (\<lambda>cs. Inr (g_codes g ! a # cs))
          else Inl Panic)"

definition Generate ::
  "nat \<Rightarrow> world \<Rightarrow> string \<Rightarrow> string \<Rightarrow> (string \<Rightarrow> testsrc option) \<Rightarrow> error + code list"
where
  "Generate fuel w pkgPath typeName input =
     bindE (parse fuel w (NewGenerator pkgPath typeName input))
       (\<lambda>g. serialize_all g (g_equalsOrder g))"

subsection \<open>Predicates used to state the properties\<close>

text \<open>
  An import path stands under two names in the import specs \<open>specs\<close>, or under one name
  in \<open>specs\<close> and another in the imports \<open>m\<close> recorded before.
\<close>

definition underTwoNames :: "(string \<Rightarrow> string option) \<Rightarrow> (string \<times> string) list \<Rightarrow> bool" where
  "underTwoNames m specs =
     list_ex (\<lambda>(n, p). (case m p of None \<Rightarrow> False | Some n' \<Rightarrow> n' \<noteq> n) \<or>
                        list_ex (\<lambda>(n', p'). p' = p \<and> n' \<noteq> n) specs) specs"

text \<open>The import specs of the files that parse.\<close>

fun allImports :: "testsrc option \<Rightarrow> srcfile list \<Rightarrow> (string \<times> string) list" where
  "allImports input [] = []"
| "allImports input (f # files) =
     (case ParseFile input f of None \<Rightarrow> [] | Some specs \<Rightarrow> specs) @ allImports input files"

text \<open>
  The files of the package at \<open>path\<close> that \<^verbatim>\<open>check\<close> parses, and whether two of their
  import specs give one path two names.
\<close>

definition examined :: "world \<Rightarrow> string \<Rightarrow> testsrc option \<Rightarrow> srcfile list option" where
  "examined w path input =
     (case (if input \<noteq> None then Inr (testDiscover (newPkg path input))
            else discover w (newPkg path input)) of
        Inl e \<Rightarrow> None
      | Inr (p, files) \<Rightarrow> Some files)"

definition conflicting :: "world \<Rightarrow> (string \<Rightarrow> testsrc option) \<Rightarrow> string \<Rightarrow> bool" where
  "conflicting w input path =
     (case examined w path (input path) of
        None \<Rightarrow> False
      | Some files \<Rightarrow> underTwoNames Map.empty (allImports (input path) files))"

text \<open>The underlying type of a named type, as the type checker of its package gives it.\<close>

definition catalog :: "world \<Rightarrow> (string \<Rightarrow> testsrc option) \<Rightarrow> Type \<Rightarrow> gotype option" where
  "catalog w input T =
     (case input (type_pkgPath T) of
        Some src \<Rightarrow> test_types src (type_name T)
      | None \<Rightarrow>
          (case Import w (type_pkgPath T) of
             None \<Rightarrow> None
           | Some pkgObj \<Rightarrow> src_types pkgObj (type_name T)))"

text \<open>
  A package is foreign when its directory lies under \<open>GOROOT\<close>: named types of such a
  package are skipped.
\<close>

definition foreignPkg :: "world \<Rightarrow> (string \<Rightarrow> testsrc option) \<Rightarrow> string \<Rightarrow> bool" where
  "foreignPkg w input pkgPath =
     (case GOROOT w of
        None \<Rightarrow> False
      | Some goroot \<Rightarrow>
          (case input pkgPath of
             Some src \<Rightarrow> HasPrefix pkgPath goroot
           | None \<Rightarrow>
               (case Import w pkgPath of
                  None \<Rightarrow> False
                | Some pkgObj \<Rightarrow> HasPrefix (src_dir pkgObj) goroot)))"

text \<open>
  \<open>calls w input typ T\<close>: the comparison of a position of type \<open>typ\<close> calls the Equal
  function of the named type \<open>T\<close>. \<open>reaches w input root T\<close>: the session for \<open>root\<close>
  comes to generate the function of \<open>T\<close>.
\<close>

inductive calls :: "world \<Rightarrow> (string \<Rightarrow> testsrc option) \<Rightarrow> gotype \<Rightarrow> Type \<Rightarrow> bool"
  for w :: world and input :: "string \<Rightarrow> testsrc option"
where
  calls_Named: "\<not> foreignPkg w input pkgPath \<Longrightarrow> calls w input (Named pkgPath n) (Type n pkgPath)"
| calls_Struct: "(f, typ) \<in> set flds \<Longrightarrow> calls w input typ T \<Longrightarrow> calls w input (Struct flds) T"
| calls_Slice: "calls w input elem T \<Longrightarrow> calls w input (Slice elem) T"
| calls_Array: "calls w input elem T \<Longrightarrow> calls w input (Array len elem) T"
| calls_Map: "calls w input elem T \<Longrightarrow> calls w input (Map k elem) T"
| calls_Pointer: "calls w input elem T \<Longrightarrow> calls w input (Pointer elem) T"

inductive reaches :: "world \<Rightarrow> (string \<Rightarrow> testsrc option) \<Rightarrow> Type \<Rightarrow> Type \<Rightarrow> bool"
  for w :: world and input :: "string \<Rightarrow> testsrc option" and root :: Type
where
  reaches_root: "reaches w input root root"
| reaches_step: "reaches w input root T \<Longrightarrow> catalog w input T = Some typ \<Longrightarrow>
     calls w input typ T' \<Longrightarrow> reaches w input root T'"

text \<open>Shapes of names: \<open>u\<close> dereferences, balanced parentheses, substrings.\<close>

fun Contains :: "string \<Rightarrow> string \<Rightarrow> bool" where
  "Contains [] sub = (sub = [])"
| "Contains (c # cs) sub = (HasPrefix (c # cs) sub \<or> Contains cs sub)"

fun derefs :: "nat \<Rightarrow> string" where
  "derefs 0 = []"
| "derefs (Suc u) = ''(*'' @ derefs u"

fun balanced :: "string \<Rightarrow> nat \<Rightarrow> bool" where
  "balanced [] d = (d = 0)"
| "balanced (c # cs) d =
     (if c = CHR ''('' then balanced cs (Suc d)
      else if c = CHR '')'' then 0 < d \<and> balanced cs (d - 1)
      else balanced cs d)"

subsection \<open>The state changes of a session\<close>

text \<open>
  The two state changes of \<^verbatim>\<open>parseTypeDef\<close>: before the body of the type is parsed, the
  new code object is stored and the type is pushed on the stack of used types; after
  it, the code is written into the object, the type is appended to the order of
  generation and popped from the stack.
\<close>

definition enterType :: "Generator \<Rightarrow> Type \<Rightarrow> Generator" where
  "enterType g myType =
     g\<lparr>g_codes := g_codes g @ [newCode (type_name myType) (type_pkgPath myType)],
       g_equals := (g_equals g)(myType \<mapsto> length (g_codes g)),
       g_usedTypes := g_usedTypes g @ [myType]\<rparr>"

definition leaveType :: "Generator \<Rightarrow> nat \<Rightarrow> Type \<Rightarrow> string \<Rightarrow> Generator" where
  "leaveType g a myType c =
     g\<lparr>g_codes := (g_codes g)[a := (g_codes g ! a)\<lparr>code_code := c\<rparr>],
       g_equalsOrder := g_equalsOrder g @ [myType],
       g_usedTypes := butlast (g_usedTypes g)\<rparr>"

text \<open>
  \<open>gen w g g'\<close>: the state \<open>g'\<close> comes from \<open>g\<close> by the state changes a parse makes:
  imports recorded in the current code object, packages found and checked, and types
  defined, each between its entry and its exit.
\<close>

inductive gen :: "world \<Rightarrow> Generator \<Rightarrow> Generator \<Rightarrow> bool" for w :: world where
  gen_refl: "gen w g g"
| gen_imports:
    "getReferenceUpdateImports w g pkgPath name = Inr (r, g1) \<Longrightarrow> gen w g1 g2 \<Longrightarrow> gen w g g2"
| gen_findObj: "findObj w g T = Inr (obj, g1) \<Longrightarrow> gen w g1 g2 \<Longrightarrow> gen w g g2"
| gen_typeDef:
    "g_equals g T = None \<Longrightarrow> findObj w g T = Inr (obj, g1) \<Longrightarrow> gen w (enterType g1 T) g2 \<Longrightarrow>
     g_usedTypes g2 \<noteq> [] \<Longrightarrow> gen w (leaveType g2 (length (g_codes g1)) T c) g3 \<Longrightarrow> gen w g g3"

text \<open>
  What a parse leaves as it was: the test input, the root, the stack of used types, the
  entries of \<open>g_equals\<close>, the code objects allocated and the order generated so far.
\<close>

definition extends :: "Generator \<Rightarrow> Generator \<Rightarrow> bool" where
  "extends g g' \<longleftrightarrow>
     g_input g' = g_input g \<and> g_pkgPath g' = g_pkgPath g \<and> g_typeName g' = g_typeName g \<and>
     g_usedTypes g' = g_usedTypes g \<and>
     (\<forall>T a. g_equals g T = Some a \<longrightarrow> g_equals g' T = Some a) \<and>
     length (g_codes g) \<le> length (g_codes g') \<and>
     (\<forall>a < length (g_codes g).
        code_typeName (g_codes g' ! a) = code_typeName (g_codes g ! a) \<and>
        code_pkg (g_codes g' ! a) = code_pkg (g_codes g ! a)) \<and>
     (\<exists>xs. g_equalsOrder g' = g_equalsOrder g @ xs)"

text \<open>
  The code objects and the entries of \<open>g_equals\<close> correspond one to one, and the types
  with an entry are those generated and those in progress, each once.
\<close>

definition consistent :: "Generator \<Rightarrow> bool" where
  "consistent g \<longleftrightarrow>
     (\<forall>T a. g_equals g T = Some a \<longrightarrow>
        a < length (g_codes g) \<and> code_typeName (g_codes g ! a) = type_name T \<and>
        code_pkg (g_codes g ! a) = type_pkgPath T) \<and>
     (\<forall>T T' a. g_equals g T = Some a \<longrightarrow> g_equals g T' = Some a \<longrightarrow> T = T') \<and>
     (\<forall>a < length (g_codes g). \<exists>T. g_equals g T = Some a) \<and>
     distinct (g_equalsOrder g @ g_usedTypes g) \<and>
     set (g_equalsOrder g) \<union> set (g_usedTypes g) = dom (g_equals g)"

text \<open>Every package object stored is the result of \<^verbatim>\<open>check\<close> on the fresh object.\<close>

definition checked :: "world \<Rightarrow> Generator \<Rightarrow> bool" where
  "checked w g \<longleftrightarrow>
     (\<forall>p pk. g_defs g p = Some pk \<longrightarrow> check w (newPkg p (g_input g p)) = Inr pk) \<and>
     (\<forall>T. g_equals g T \<noteq> None \<longrightarrow> g_defs g (type_pkgPath T) \<noteq> None)"

section \<open>Properties\<close>

subsection \<open>The error monad\<close>

lemma bindE_Inr_iff: "bindE m f = Inr y \<longleftrightarrow> (\<exists>x. m = Inr x \<and> f x = Inr y)"
  by (cases m) (simp_all add: bindE_def)

lemma bindE_Inl_iff: "bindE m f = Inl e \<longleftrightarrow> (m = Inl e \<or> (\<exists>x. m = Inr x \<and> f x = Inl e))"
  by (cases m) (simp_all add: bindE_def)

lemma bindE_InrE:
  assumes "bindE m f = Inr y"
  obtains x where "m = Inr x" "f x = Inr y"
  using assms by (auto simp: bindE_Inr_iff)

subsection \<open>Every parse is a sequence of state changes\<close>

lemma gen_trans: "gen w g1 g2 \<Longrightarrow> gen w g2 g3 \<Longrightarrow> gen w g1 g3"
  by (induction rule: gen.induct) (auto intro: gen.intros)

lemma gen_imports1: "getReferenceUpdateImports w g pkgPath name = Inr (r, g1) \<Longrightarrow> gen w g g1"
  by (blast intro: gen.intros)

lemma gen_findObj1: "findObj w g T = Inr (obj, g1) \<Longrightarrow> gen w g g1"
  by (blast intro: gen.intros)

lemma gen_funcName: "getEqualFunctionName w g typ = Inr (r, g1) \<Longrightarrow> gen w g g1"
  unfolding getEqualFunctionName_def
  by (cases "typ") (auto simp: bindE_Inr_iff split: if_splits intro: gen_refl gen_imports1)

lemma parseTypeDef_alt:
  "parseTypeDef rec g myType typ =
     bindE (rec (enterType g myType) (type_name myType) typ True False)
       (\<lambda>(body, g2).
          if g_usedTypes g2 = [] then Inl Panic
          else Inr (leaveType g2 (length (g_codes g)) myType
                 (typeDefHeader (type_name myType) typ @ body @ ''return true\<newline>}'')))"
  unfolding parseTypeDef_def enterType_def leaveType_def Let_def by (rule refl)

lemma gen_parseTypeDef:
  assumes rec: "\<And>g name ty a b s g'. rec g name ty a b = Inr (s, g') \<Longrightarrow> gen w g g'"
    and "g_equals g myType = None" "findObj w g myType = Inr (typ, g1)"
    and "parseTypeDef rec g1 myType typ = Inr g'"
  shows "gen w g g'"
proof -
  from assms(4) obtain body g2 where r: "rec (enterType g1 myType) (type_name myType) typ True False = Inr (body, g2)"
    and u: "g_usedTypes g2 \<noteq> []"
    and g': "g' = leaveType g2 (length (g_codes g1)) myType
                 (typeDefHeader (type_name myType) typ @ body @ ''return true\<newline>}'')"
    unfolding parseTypeDef_alt by (auto simp: bindE_Inr_iff split: if_splits)
  from rec[OF r] have "gen w (enterType g1 myType) g2" .
  from gen_typeDef[OF assms(2,3) this u gen_refl] g' show ?thesis by simp
qed

lemma gen_funcNameI:
  "getEqualFunctionName w g ty = Inr (r, g1) \<Longrightarrow> gen w g1 g2 \<Longrightarrow> gen w g g2"
  by (blast intro: gen_trans gen_funcName)

lemma gen_parseSlice:
  assumes rec: "\<And>g name ty a b s g' g2. rec g name ty a b = Inr (s, g') \<Longrightarrow> gen w g' g2 \<Longrightarrow> gen w g g2"
    and "parseSlice w rec g name elem isType = Inr (s, g')"
  shows "gen w g g'"
  using assms(2) unfolding parseSlice_def
  apply (simp add: bindE_Inr_iff Let_def)
  apply (elim exE conjE)
  apply (simp add: bindE_Inr_iff split: if_splits)
    apply (blast intro: gen_refl gen_funcNameI gen_imports rec)+
  done

lemma gen_parseArray:
  assumes rec: "\<And>g name ty a b s g' g2. rec g name ty a b = Inr (s, g') \<Longrightarrow> gen w g' g2 \<Longrightarrow> gen w g g2"
    and "parseArray w rec g name0 elem isType isPR = Inr (s, g')"
  shows "gen w g g'"
proof -
  from assms(2) obtain ok cc g1 where
    e: "getEqualFunctionName w g elem = Inr ((ok, cc), g1)" and
    r: "(if ok \<and> cc = [] then Inr ([], g1)
     else
       let name = (if isType \<and> \<not> isPR then ''(*'' @ name0 @ '')'' else name0) in
       bindE (getNames name isType) (\<lambda>(name1, name2).
       case elem of
         Basic k \<Rightarrow> Inr (neCheck name1 name2, g1)
       | _ \<Rightarrow>
           bindE (findNextUsableIndex name ''i'') (\<lambda>index.
           let indexName = ''i'' @ showInt index;
               referenceName = name @ ''['' @ indexName @ '']''
           in bindE (rec g1 referenceName elem isType False)
                (\<lambda>(body, g2). Inr (forRange indexName name1 body, g2))))) = Inr (s, g')"
    unfolding parseArray_def by (auto simp: bindE_Inr_iff)
  have "gen w g1 g'"
  proof (cases "ok \<and> cc = []")
    case True
    with r show ?thesis by (simp add: gen_refl)
  next
    case False
    with r obtain name name1 name2 where
      r2: "(case elem of
         Basic k \<Rightarrow> Inr (neCheck name1 name2, g1)
       | _ \<Rightarrow>
           bindE (findNextUsableIndex name ''i'') (\<lambda>index.
           let indexName = ''i'' @ showInt index;
               referenceName = name @ ''['' @ indexName @ '']''
           in bindE (rec g1 referenceName elem isType False)
                (\<lambda>(body, g2). Inr (forRange indexName name1 body, g2)))) = Inr (s, g')"
      by (auto simp: bindE_Inr_iff Let_def)
    show ?thesis
    proof (cases "\<exists>k. elem = Basic k")
      case True
      with r2 show ?thesis by (auto simp: gen_refl)
    next
      case False
      with r2 obtain index body where
        "rec g1 (name @ ''['' @ (''i'' @ showInt index) @ '']'') elem isType False = Inr (body, g')"
        by (cases elem) (auto simp: bindE_Inr_iff Let_def)
      from rec[OF this gen_refl] show ?thesis .
    qed
  qed
  from gen_funcNameI[OF e this] show ?thesis .
qed

lemma gen_parseMap:
  assumes rec: "\<And>g name ty a b s g' g2. rec g name ty a b = Inr (s, g') \<Longrightarrow> gen w g' g2 \<Longrightarrow> gen w g g2"
    and "parseMap w rec g name elem isType = Inr (s, g')"
  shows "gen w g g'"
  using assms(2) unfolding parseMap_def
  apply (simp add: bindE_Inr_iff Let_def)
  apply (elim exE conjE)
  apply (simp add: bindE_Inr_iff split: if_splits)
    apply (blast intro: gen_refl gen_funcNameI gen_imports rec)+
  done

lemma gen_parsePointer:
  assumes rec: "\<And>g name ty a b s g' g2. rec g name ty a b = Inr (s, g') \<Longrightarrow> gen w g' g2 \<Longrightarrow> gen w g g2"
    and "parsePointer w rec g name elem isType = Inr (s, g')"
  shows "gen w g g'"
  using assms(2) unfolding parsePointer_def
  apply (simp add: bindE_Inr_iff Let_def)
  apply (elim exE conjE)
  apply (cases elem)
  apply (simp_all add: bindE_Inr_iff split: if_splits)
    apply (blast intro: gen_refl gen_funcNameI gen_imports rec)+
  done

lemma gen_parseStruct_loop:
  assumes rec: "\<And>g name ty a b s g'. rec g name ty a b = Inr (s, g') \<Longrightarrow> gen w g g'"
  shows "parseStruct_loop rec g flds result = Inr (s, g') \<Longrightarrow> gen w g g'"
proof (induction flds arbitrary: g result)
  case Nil
  then show ?case by (simp add: gen_refl)
next
  case (Cons a flds)
  obtain fname ftype where a: "a = (fname, ftype)" by (cases a)
  from Cons.prems obtain s1 g1 where r: "rec g fname ftype False False = Inr (s1, g1)"
    and l: "parseStruct_loop rec g1 flds (result @ s1) = Inr (s, g')"
    unfolding a by (auto simp: bindE_Inr_iff)
  from gen_trans[OF rec[OF r] Cons.IH[OF l]] show ?case .
qed

lemma gen_parseNamed:
  assumes rec: "\<And>g name ty a b s g'. rec g name ty a b = Inr (s, g') \<Longrightarrow> gen w g g'"
    and "parseNamed w rec g name pkgPath n isType isPR = Inr (s, g')"
  shows "gen w g g'"
proof -
  let ?T = "Type n pkgPath"
  from assms(2) obtain g2 funcName g3 obj where
    c: "(case g_equals g ?T of
              None \<Rightarrow> bindE (findObj w g ?T) (\<lambda>(obj, g1). parseTypeDef rec g1 ?T obj)
            | Some myCode \<Rightarrow> Inr g) = Inr g2"
    and i: "getReferenceUpdateImports w g2 pkgPath (''Equal'' @ n) = Inr (funcName, g3)"
    and f: "findObj w g3 ?T = Inr (obj, g')"
    unfolding parseNamed_def
    apply (simp add: bindE_Inr_iff Let_def)
    apply (elim exE conjE)
    apply (auto simp: bindE_Inr_iff split: if_splits prod.splits)
    done
  have "gen w g g2"
  proof (cases "g_equals g ?T")
    case None
    with c obtain ty g1 where "findObj w g ?T = Inr (ty, g1)" "parseTypeDef rec g1 ?T ty = Inr g2"
      by (auto simp: bindE_Inr_iff)
    from gen_parseTypeDef[OF rec None this] show ?thesis .
  next
    case (Some a)
    with c show ?thesis by (simp add: gen_refl)
  qed
  from gen_trans[OF this gen_trans[OF gen_imports1[OF i] gen_findObj1[OF f]]] show ?thesis .
qed

lemma gen_parseType:
  "parseType fuel w g name ty isType isPR = Inr (s, g') \<Longrightarrow> gen w g g'"
proof (induction fuel arbitrary: g name ty isType isPR s g')
  case 0
  then show ?case by simp
next
  case (Suc fuel)
  have rec: "\<And>g name ty a b s g'. parseType fuel w g name ty a b = Inr (s, g') \<Longrightarrow> gen w g g'"
    by (rule Suc.IH)
  have rec2: "\<And>g name ty a b s g' g2. parseType fuel w g name ty a b = Inr (s, g') \<Longrightarrow>
      gen w g' g2 \<Longrightarrow> gen w g g2"
    by (blast intro: gen_trans rec)
  from Suc.prems obtain ok customCall g1 where
    e: "getEqualFunctionName w g ty = Inr ((ok, customCall), g1)"
    and r: "(if ok then
       (if customCall = [] then Inr ([], g1)
        else bindE (getNames name isType)
               (\<lambda>(name1, name2). Inr (customCheck customCall name1 name2, g1)))
     else
       (case ty of
          Named pkgPath n \<Rightarrow>
            parseNamed w (parseType fuel w) g1 name pkgPath n isType isPR
        | Struct flds \<Rightarrow> parseStruct (parseType fuel w) g1 flds
        | Basic k \<Rightarrow>
            bindE (getNames name isType) (\<lambda>(name1, name2). Inr (neCheck name1 name2, g1))
        | Slice elem \<Rightarrow> parseSlice w (parseType fuel w) g1 name elem isType
        | Array len elem \<Rightarrow>
            parseArray w (parseType fuel w) g1 name elem isType isPR
        | Map k elem \<Rightarrow> parseMap w (parseType fuel w) g1 name elem isType
        | Pointer elem \<Rightarrow> parsePointer w (parseType fuel w) g1 name elem isType
        | _ \<Rightarrow> Inr ([], g1))) = Inr (s, g')"
    by (auto simp: bindE_Inr_iff)
  have "gen w g1 g'"
  proof (cases ok)
    case True
    with r show ?thesis by (auto simp: bindE_Inr_iff gen_refl split: if_splits)
  next
    case False
    with r show ?thesis
      by (cases ty)
         (auto simp: bindE_Inr_iff gen_refl parseStruct_def
               intro: gen_parseNamed[OF rec] gen_parseStruct_loop[OF rec] gen_parseSlice[OF rec2]
                      gen_parseArray[OF rec2] gen_parseMap[OF rec2] gen_parsePointer[OF rec2])
  qed
  from gen_trans[OF gen_funcName[OF e] this] show ?case .
qed

lemma gen_parse: "parse fuel w g = Inr g' \<Longrightarrow> g_equals g (Type (g_typeName g) (g_pkgPath g)) = None \<Longrightarrow> gen w g g'"
  unfolding parse_def Let_def
  by (auto simp: bindE_Inr_iff intro: gen_parseTypeDef[OF gen_parseType])

subsection \<open>What a parse preserves\<close>

lemma findObj_frame:
  assumes "findObj w g T = Inr (obj, g1)"
  obtains pk where "g1 = g\<lparr>g_defs := (g_defs g)(type_pkgPath T \<mapsto> pk)\<rparr>"
  using assms unfolding findObj_def Let_def by (auto simp: bindE_Inr_iff)

lemma getReferenceUpdateImports_frame:
  assumes "getReferenceUpdateImports w g pkgPath name = Inr (r, g1)"
  shows "g1 = g \<or> (\<exists>a. g_usedTypes g \<noteq> [] \<and> g_equals g (last (g_usedTypes g)) = Some a \<and>
           g1 = g\<lparr>g_codes := (g_codes g)[a := add_import pkgPath (g_codes g ! a)]\<rparr>)"
proof -
  from assms obtain ref where ref: "getReferencedPackageName w g pkgPath = Inr ref"
    and r: "(if ref = [] then Inr (name, g)
          else (case g_equals g (last (g_usedTypes g)) of
                  None \<Rightarrow> Inl Panic
                | Some a \<Rightarrow>
                    (let g' = g\<lparr>g_codes := (g_codes g)[a := add_import pkgPath (g_codes g ! a)]\<rparr>
                     in if ref = ''.'' then Inr (name, g')
                        else Inr (ref @ ''.'' @ name, g')))) = Inr (r, g1)"
    unfolding getReferenceUpdateImports_def by (auto simp: bindE_Inr_iff)
  from ref have ne: "g_usedTypes g \<noteq> []"
    unfolding getReferencedPackageName_def by (auto split: if_splits)
  from r ne show ?thesis
    by (auto simp: Let_def split: if_splits option.splits)
qed

lemma extends_refl: "extends g g"
  by (simp add: extends_def)

lemma extends_trans: "extends g1 g2 \<Longrightarrow> extends g2 g3 \<Longrightarrow> extends g1 g3"
  unfolding extends_def by (auto; metis (no_types, lifting) le_trans less_le_trans append_assoc)

lemma extends_findObj: "findObj w g T = Inr (obj, g1) \<Longrightarrow> extends g g1"
  by (erule findObj_frame) (simp add: extends_def)

lemma nth_list_update_keeps:
  "j < length xs \<Longrightarrow> (\<And>x. h (f x) = h x) \<Longrightarrow> h (xs[a := f (xs ! a)] ! j) = h (xs ! j)"
  by (cases "a = j") simp_all

lemma extends_imports: "getReferenceUpdateImports w g pkgPath name = Inr (r, g1) \<Longrightarrow> extends g g1"
  by (drule getReferenceUpdateImports_frame)
     (auto simp: extends_def add_import_def intro!: nth_list_update_keeps)

lemma findObj_equals: "findObj w g T = Inr (obj, g1) \<Longrightarrow> g_equals g1 = g_equals g"
  by (erule findObj_frame) simp

lemma findObj_codes: "findObj w g T = Inr (obj, g1) \<Longrightarrow> g_codes g1 = g_codes g"
  by (erule findObj_frame) simp

lemma extends_enter_leave:
  assumes n: "g_equals g1 T = None" and e: "extends (enterType g1 T) g2"
  shows "extends g1 (leaveType g2 (length (g_codes g1)) T c)"
proof -
  from e have u: "g_usedTypes g2 = g_usedTypes g1 @ [T]"
    and i: "g_input g2 = g_input g1" "g_pkgPath g2 = g_pkgPath g1" "g_typeName g2 = g_typeName g1"
    and q: "\<And>T' a. (if T' = T then Some (length (g_codes g1)) else g_equals g1 T') = Some a \<Longrightarrow> g_equals g2 T' = Some a"
    and l: "Suc (length (g_codes g1)) \<le> length (g_codes g2)"
    and k: "\<And>a. a < Suc (length (g_codes g1)) \<Longrightarrow>
        code_typeName (g_codes g2 ! a) = code_typeName ((g_codes g1 @ [newCode (type_name T) (type_pkgPath T)]) ! a) \<and>
        code_pkg (g_codes g2 ! a) = code_pkg ((g_codes g1 @ [newCode (type_name T) (type_pkgPath T)]) ! a)"
    and o: "\<exists>xs. g_equalsOrder g2 = g_equalsOrder g1 @ xs"
    unfolding extends_def enterType_def by simp_all
  have eq: "\<And>T' a. g_equals g1 T' = Some a \<Longrightarrow> g_equals g2 T' = Some a"
  proof -
    fix T' a assume h: "g_equals g1 T' = Some a"
    with n have "T' \<noteq> T" by auto
    with h show "g_equals g2 T' = Some a" using q[of T' a] by simp
  qed
  have kk: "\<And>a. a < length (g_codes g1) \<Longrightarrow>
        code_typeName (g_codes g2 ! a) = code_typeName (g_codes g1 ! a) \<and>
        code_pkg (g_codes g2 ! a) = code_pkg (g_codes g1 ! a)"
    using k by (simp add: nth_append)
  have up: "\<And>a. a < length (g_codes g2) \<Longrightarrow>
      code_typeName ((g_codes g2)[length (g_codes g1) := (g_codes g2 ! length (g_codes g1))\<lparr>code_code := c\<rparr>] ! a)
        = code_typeName (g_codes g2 ! a) \<and>
      code_pkg ((g_codes g2)[length (g_codes g1) := (g_codes g2 ! length (g_codes g1))\<lparr>code_code := c\<rparr>] ! a)
        = code_pkg (g_codes g2 ! a)"
    by (auto intro!: nth_list_update_keeps)
  from o obtain xs where "g_equalsOrder g2 = g_equalsOrder g1 @ xs" by blast
  then have o': "\<exists>ys. g_equalsOrder g2 @ [T] = g_equalsOrder g1 @ ys" by simp
  show ?thesis
    unfolding extends_def leaveType_def
    using u i eq l kk up o' by (auto simp: butlast_append)
qed

lemma gen_extends: "gen w g g' \<Longrightarrow> extends g g'"
proof (induction rule: gen.induct)
  case (gen_refl g)
  show ?case by (rule extends_refl)
next
  case (gen_imports g pkgPath name r g1 g2)
  from extends_trans[OF extends_imports[OF gen_imports.hyps(1)] gen_imports.IH] show ?case .
next
  case (gen_findObj g T obj g1 g2)
  from extends_trans[OF extends_findObj[OF gen_findObj.hyps(1)] gen_findObj.IH] show ?case .
next
  case (gen_typeDef g T obj g1 g2 c g3)
  have n: "g_equals g1 T = None" using gen_typeDef.hyps(1,2) by (simp add: findObj_equals)
  from extends_trans[OF extends_findObj[OF gen_typeDef.hyps(2)]
        extends_trans[OF extends_enter_leave[OF n gen_typeDef.IH(1)] gen_typeDef.IH(2)]]
  show ?case .
qed

lemma consistent_imports:
  assumes "getReferenceUpdateImports w g pkgPath name = Inr (r, g1)" "consistent g"
  shows "consistent g1"
proof -
  from getReferenceUpdateImports_frame[OF assms(1)] show ?thesis
  proof
    assume "g1 = g" with assms(2) show ?thesis by simp
  next
    assume "\<exists>a. g_usedTypes g \<noteq> [] \<and> g_equals g (last (g_usedTypes g)) = Some a \<and>
           g1 = g\<lparr>g_codes := (g_codes g)[a := add_import pkgPath (g_codes g ! a)]\<rparr>"
    then obtain a where g1: "g1 = g\<lparr>g_codes := (g_codes g)[a := add_import pkgPath (g_codes g ! a)]\<rparr>"
      by blast
    have k: "\<And>j. j < length (g_codes g) \<Longrightarrow>
        code_typeName ((g_codes g)[a := add_import pkgPath (g_codes g ! a)] ! j) = code_typeName (g_codes g ! j)
      \<and> code_pkg ((g_codes g)[a := add_import pkgPath (g_codes g ! a)] ! j) = code_pkg (g_codes g ! j)"
      by (auto simp: add_import_def intro!: nth_list_update_keeps)
    from assms(2) show ?thesis unfolding consistent_def g1 using k by simp
  qed
qed

lemma consistent_findObj: "findObj w g T = Inr (obj, g1) \<Longrightarrow> consistent g \<Longrightarrow> consistent g1"
  by (erule findObj_frame) (simp add: consistent_def)

lemma consistent_enter:
  assumes "consistent g" "g_equals g T = None"
  shows "consistent (enterType g T)"
proof -
  let ?n = "length (g_codes g)"
  let ?cs = "g_codes g @ [newCode (type_name T) (type_pkgPath T)]"
  let ?eq = "(g_equals g)(T \<mapsto> ?n)"
  from assms(1) have
    a1: "\<And>T' a. g_equals g T' = Some a \<Longrightarrow> a < length (g_codes g) \<and>
          code_typeName (g_codes g ! a) = type_name T' \<and> code_pkg (g_codes g ! a) = type_pkgPath T'"
    and a2: "\<And>T1 T2 a. g_equals g T1 = Some a \<Longrightarrow> g_equals g T2 = Some a \<Longrightarrow> T1 = T2"
    and a3: "\<And>a. a < length (g_codes g) \<Longrightarrow> \<exists>T'. g_equals g T' = Some a"
    and a4: "distinct (g_equalsOrder g @ g_usedTypes g)"
    and a5: "set (g_equalsOrder g) \<union> set (g_usedTypes g) = dom (g_equals g)"
    unfolding consistent_def by blast+
  from assms(2) a5 have notin: "T \<notin> set (g_equalsOrder g)" "T \<notin> set (g_usedTypes g)" by auto
  have b1: "\<forall>T' a. ?eq T' = Some a \<longrightarrow>
        a < length ?cs \<and> code_typeName (?cs ! a) = type_name T' \<and> code_pkg (?cs ! a) = type_pkgPath T'"
  proof (intro allI impI)
    fix T' a assume h: "?eq T' = Some a"
    show "a < length ?cs \<and> code_typeName (?cs ! a) = type_name T' \<and> code_pkg (?cs ! a) = type_pkgPath T'"
    proof (cases "T' = T")
      case True
      with h have "a = ?n" by simp
      then show ?thesis using True by (simp add: newCode_def)
    next
      case False
      with h have "g_equals g T' = Some a" by simp
      from a1[OF this] show ?thesis by (simp add: nth_append)
    qed
  qed
  have b2: "\<forall>T1 T2 a. ?eq T1 = Some a \<longrightarrow> ?eq T2 = Some a \<longrightarrow> T1 = T2"
  proof (intro allI impI)
    fix T1 T2 a assume h1: "?eq T1 = Some a" and h2: "?eq T2 = Some a"
    show "T1 = T2"
    proof (cases "T1 = T")
      case True
      with h1 have a: "a = ?n" by simp
      show ?thesis
      proof (cases "T2 = T")
        case True
        with \<open>T1 = T\<close> show ?thesis by simp
      next
        case False
        with h2 have "g_equals g T2 = Some a" by simp
        from a1[OF this] a show ?thesis by simp
      qed
    next
      case False
      with h1 have g1: "g_equals g T1 = Some a" by simp
      show ?thesis
      proof (cases "T2 = T")
        case True
        with h2 have "a = ?n" by simp
        with a1[OF g1] show ?thesis by simp
      next
        case False
        with h2 have "g_equals g T2 = Some a" by simp
        with g1 show ?thesis by (rule a2)
      qed
    qed
  qed
  have b3: "\<forall>a < length ?cs. \<exists>T'. ?eq T' = Some a"
  proof (intro allI impI)
    fix a assume "a < length ?cs"
    then consider "a = length (g_codes g)" | "a < length (g_codes g)" by fastforce
    then show "\<exists>T'. ?eq T' = Some a"
    proof cases
      case 1
      then show ?thesis by (intro exI[of _ T]) simp
    next
      case 2
      from a3[OF 2] obtain T' where t: "g_equals g T' = Some a" by blast
      with assms(2) have "T' \<noteq> T" by auto
      with t show ?thesis by (intro exI[of _ T']) simp
    qed
  qed
  have b4: "distinct (g_equalsOrder g @ g_usedTypes g @ [T])" using a4 notin by auto
  have b5: "set (g_equalsOrder g) \<union> set (g_usedTypes g @ [T]) = dom ?eq"
    using a5 by auto
  have sel: "g_codes (enterType g T) = ?cs" "g_equals (enterType g T) = ?eq"
    "g_equalsOrder (enterType g T) = g_equalsOrder g"
    "g_usedTypes (enterType g T) = g_usedTypes g @ [T]"
    by (simp_all add: enterType_def)
  show ?thesis
    unfolding consistent_def sel using b1 b2 b3 b4 b5 by blast
qed

lemma consistent_leave:
  assumes "consistent g2" "g_usedTypes g2 = us @ [T]"
  shows "consistent (leaveType g2 a T c)"
proof -
  let ?cs = "(g_codes g2)[a := (g_codes g2 ! a)\<lparr>code_code := c\<rparr>]"
  have k: "\<And>j. j < length (g_codes g2) \<Longrightarrow>
        code_typeName (?cs ! j) = code_typeName (g_codes g2 ! j)
      \<and> code_pkg (?cs ! j) = code_pkg (g_codes g2 ! j)"
    by (auto intro!: nth_list_update_keeps)
  from assms(1) have
    a1: "\<And>T' a. g_equals g2 T' = Some a \<Longrightarrow> a < length (g_codes g2) \<and>
          code_typeName (g_codes g2 ! a) = type_name T' \<and> code_pkg (g_codes g2 ! a) = type_pkgPath T'"
    and a2: "\<forall>T1 T2 a. g_equals g2 T1 = Some a \<longrightarrow> g_equals g2 T2 = Some a \<longrightarrow> T1 = T2"
    and a3: "\<forall>a < length (g_codes g2). \<exists>T'. g_equals g2 T' = Some a"
    and d: "distinct (g_equalsOrder g2 @ g_usedTypes g2)"
    and s: "set (g_equalsOrder g2) \<union> set (g_usedTypes g2) = dom (g_equals g2)"
    unfolding consistent_def by blast+
  have b1: "\<forall>T' a. g_equals g2 T' = Some a \<longrightarrow>
        a < length ?cs \<and> code_typeName (?cs ! a) = type_name T' \<and> code_pkg (?cs ! a) = type_pkgPath T'"
    using a1 k by simp
  have b3: "\<forall>a < length ?cs. \<exists>T'. g_equals g2 T' = Some a" using a3 by simp
  have d': "distinct ((g_equalsOrder g2 @ [T]) @ us)" using d assms(2) by auto
  have s': "set (g_equalsOrder g2 @ [T]) \<union> set us = dom (g_equals g2)" using s assms(2) by auto
  have sel: "g_codes (leaveType g2 a T c) = ?cs" "g_equals (leaveType g2 a T c) = g_equals g2"
    "g_equalsOrder (leaveType g2 a T c) = g_equalsOrder g2 @ [T]"
    "g_usedTypes (leaveType g2 a T c) = us"
    by (simp_all add: leaveType_def assms(2))
  show ?thesis
    unfolding consistent_def sel using b1 a2 b3 d' s' by blast
qed

lemma gen_consistent: "gen w g g' \<Longrightarrow> consistent g \<Longrightarrow> consistent g'"
proof (induction rule: gen.induct)
  case (gen_refl g)
  then show ?case .
next
  case (gen_imports g pkgPath name r g1 g2)
  from gen_imports.IH[OF consistent_imports[OF gen_imports.hyps(1) gen_imports.prems]] show ?case .
next
  case (gen_findObj g T obj g1 g2)
  from gen_findObj.IH[OF consistent_findObj[OF gen_findObj.hyps(1) gen_findObj.prems]] show ?case .
next
  case (gen_typeDef g T obj g1 g2 c g3)
  have n: "g_equals g1 T = None" using gen_typeDef.hyps(1,2) by (simp add: findObj_equals)
  have w1: "consistent g1" by (rule consistent_findObj[OF gen_typeDef.hyps(2) gen_typeDef.prems])
  have w2: "consistent g2" by (rule gen_typeDef.IH(1)[OF consistent_enter[OF w1 n]])
  from gen_extends[OF gen_typeDef.hyps(3)] have "g_usedTypes g2 = g_usedTypes g1 @ [T]"
    by (simp add: extends_def enterType_def)
  from gen_typeDef.IH(2)[OF consistent_leave[OF w2 this]] show ?case .
qed

subsection \<open>Captured map values in names\<close>

lemma LastIndex_from_append:
  "\<exists>acc'. LastIndex_from (xs @ ys) sub i acc = LastIndex_from ys sub (i + length xs) acc'"
proof (induction xs arbitrary: i acc)
  case Nil
  show ?case by auto
next
  case (Cons x xs)
  obtain a where "LastIndex_from (xs @ ys) sub (Suc i) (if HasPrefix (x # xs @ ys) sub then int i else acc)
      = LastIndex_from ys sub (Suc i + length xs) a"
    using Cons.IH by blast
  then show ?case by auto
qed

lemma LastIndex_from_absent:
  "\<not> Contains xs sub \<Longrightarrow> LastIndex_from xs sub i acc = acc"
  by (induction xs arbitrary: i) auto

lemma Contains_no_bracket:
  "CHR ''['' \<notin> set xs \<Longrightarrow> \<not> Contains ys ''[key'' \<Longrightarrow> \<not> Contains (xs @ ys) ''[key''"
  by (induction xs) (auto simp: HasPrefix_def)

lemma isDigit_not_bracket: "list_all isDigit ds \<Longrightarrow> CHR ''['' \<notin> set ds"
  by (induction ds) (auto simp: isDigit_def)

lemma LastIndex_key:
  assumes "list_all isDigit ds" "\<not> Contains suf ''[key''"
  shows "LastIndex (pre @ ''[key'' @ ds @ '']'' @ suf) ''[key'' = int (length pre)"
proof -
  have nb: "CHR ''['' \<notin> set (''key'' @ ds @ '']'')"
    using isDigit_not_bracket[OF assms(1)] by simp
  have "\<not> Contains ((''key'' @ ds @ '']'') @ suf) ''[key''"
    by (rule Contains_no_bracket[OF nb assms(2)])
  then have absent: "\<not> Contains (''key'' @ ds @ '']'' @ suf) ''[key''" by simp
  obtain acc' where
    "LastIndex_from (pre @ ''[key'' @ ds @ '']'' @ suf) ''[key'' 0 (- 1) =
     LastIndex_from (''[key'' @ ds @ '']'' @ suf) ''[key'' (0 + length pre) acc'"
    using LastIndex_from_append by blast
  also have "\<dots> = LastIndex_from (''key'' @ ds @ '']'' @ suf) ''[key'' (Suc (length pre)) (int (length pre))"
    by (simp add: HasPrefix_def)
  also have "\<dots> = int (length pre)"
    by (rule LastIndex_from_absent[OF absent])
  finally show ?thesis by (simp add: LastIndex_def)
qed

lemma flup_loop_append:
  "flup_loop (xs @ ys) i st =
     (case flup_loop xs i st of None \<Rightarrow> None | Some st' \<Rightarrow> flup_loop ys (i + length xs) st')"
  by (induction xs arbitrary: i st) (auto split: option.splits)

lemma derefs_snoc: "derefs (Suc u) = derefs u @ ''(*''"
  by (induction u) auto

lemma length_derefs: "length (derefs u) = 2 * u"
  by (induction u) auto

lemma flup_loop_derefs: "flup_loop (derefs u) 0 [] = Some (map (\<lambda>k. 2 * k) [0..<u])"
proof (induction u)
  case 0
  show ?case by simp
next
  case (Suc u)
  have "flup_loop (derefs u @ ''(*'') 0 [] = Some (map (\<lambda>k. 2 * k) [0..<u] @ [2 * u])"
    by (simp add: flup_loop_append Suc.IH length_derefs)
  then show ?case by (simp only: derefs_snoc) simp
qed

lemma flup_loop_balanced:
  "balanced base d \<Longrightarrow> length ext = d \<Longrightarrow> flup_loop base i (st @ ext) = Some st"
proof (induction base arbitrary: d ext i)
  case Nil
  then show ?case by simp
next
  case (Cons c cs)
  show ?case
  proof (cases "c = CHR ''(''")
    case True
    with Cons.prems have "balanced cs (Suc d)" by simp
    from Cons.IH[OF this, of "ext @ [i]"] Cons.prems(2) True show ?thesis by simp
  next
    case False
    show ?thesis
    proof (cases "c = CHR '')''")
      case True
      with Cons.prems False have d: "0 < d" "balanced cs (d - 1)" by auto
      with Cons.prems(2) have ne: "ext \<noteq> []" by auto
      have "length (butlast ext) = d - 1" using Cons.prems(2) by simp
      from Cons.IH[OF d(2) this] True ne show ?thesis by (simp add: butlast_append)
    next
      case False
      with \<open>c \<noteq> CHR ''(''\<close> Cons.prems have "balanced cs d" by simp
      from Cons.IH[OF this Cons.prems(2)] False \<open>c \<noteq> CHR ''(''\<close> show ?thesis by simp
    qed
  qed
qed

lemma findLastUnpairedParantheses_derefs:
  assumes "balanced base 0"
  shows "findLastUnpairedParantheses (derefs u @ base) = Inr (if u = 0 then - 1 else 2 * int u - 2)"
proof -
  have "flup_loop (derefs u @ base) 0 [] = Some (map (\<lambda>k. 2 * k) [0..<u])"
    using flup_loop_balanced[OF assms, of "[]" "2 * u" "map (\<lambda>k. 2 * k) [0..<u]"]
    by (simp add: flup_loop_append flup_loop_derefs length_derefs)
  then show ?thesis
    by (cases u) (simp_all add: findLastUnpairedParantheses_def last_map)
qed

lemma takeWhile_digits:
  "list_all isDigit ds \<Longrightarrow> takeWhile isDigit (ds @ CHR '']'' # suf) = ds"
  by (induction ds) (auto simp: isDigit_def)

lemma dropWhile_digits:
  "list_all isDigit ds \<Longrightarrow> dropWhile isDigit (ds @ CHR '']'' # suf) = CHR '']'' # suf"
  by (induction ds) (auto simp: isDigit_def)

text \<open>
  Claim C5. For a name that ends in a map index \<open>[keyN]\<close> (the last one in the name),
  with \<open>u\<close> dereferences \<open>(*\<close> opened before it and still open there, a base with
  balanced parentheses, and a suffix that closes them, \<^verbatim>\<open>getNames\<close> returns the captured
  values \<open>valueN1\<close> and \<open>valueN2\<close> in place of the indexed base, inside the same
  dereferences and followed by the same suffix.
\<close>

theorem getNames_map_value:
  assumes "list_all isDigit keyNumber" "\<not> Contains suffix ''[key''" "balanced base 0"
    and "0 < u \<longrightarrow> CHR '')'' \<in> set suffix"
  shows "getNames (derefs u @ base @ ''[key'' @ keyNumber @ '']'' @ suffix) isType =
           Inr (derefs u @ ''value'' @ keyNumber @ ''1'' @ suffix,
                derefs u @ ''value'' @ keyNumber @ ''2'' @ suffix)"
proof -
  let ?pre = "derefs u @ base"
  let ?name = "?pre @ ''[key'' @ keyNumber @ '']'' @ suffix"
  have i: "LastIndex ?name ''[key'' = int (length ?pre)"
    by (rule LastIndex_key[OF assms(1,2)])
  have after: "drop (nat (int (length ?pre)) + 4) ?name = keyNumber @ CHR '']'' # suffix"
    by (subst nat_int) simp
  have tk: "take (nat (int (length ?pre))) ?name = ?pre" by (subst nat_int) simp
  have prefix: "(if CHR '')'' \<in> set suffix
          then bindE (findLastUnpairedParantheses (take (nat (int (length ?pre))) ?name))
                 (\<lambda>start. Inr (if start > - 1 then take (nat start + 2) ?name else []))
          else Inr []) = Inr (derefs u)"
  proof (cases "u = 0")
    case True
    have "findLastUnpairedParantheses base = Inr (- 1)"
      using findLastUnpairedParantheses_derefs[OF assms(3), of 0] by simp
    with True show ?thesis
      by (simp add: bindE_def)
  next
    case False
    then have c: "CHR '')'' \<in> set suffix" using assms(4) by simp
    have f: "findLastUnpairedParantheses (take (nat (int (length ?pre))) ?name) = Inr (2 * int u - 2)"
      using findLastUnpairedParantheses_derefs[OF assms(3), of u] False by (simp only: tk) simp
    have n: "nat (2 * int u - 2) + 2 = 2 * u" using False by simp
    have t2: "take (nat (2 * int u - 2) + 2) ?name = derefs u"
      by (simp only: n) (simp add: length_derefs)
    have gt: "2 * int u - 2 > - 1" using False by simp
    show ?thesis
      by (simp only: c if_True f bindE_def sum.case gt t2)
  qed
  have "getNames ?name isType = Inr (derefs u @ ''value'' @ keyNumber @ ''1'' @ suffix,
                derefs u @ ''value'' @ keyNumber @ ''2'' @ suffix)"
    unfolding getNames_def Let_def i after
    using prefix
    by (simp add: takeWhile_digits[OF assms(1)] dropWhile_digits[OF assms(1)] bindE_def)
  then show ?thesis by simp
qed

theorem getNames_map_value_witness:
  "list_all isDigit ''1'' \<and> \<not> Contains '')[i2]'' ''[key'' \<and> balanced ''a'' 0 \<and> CHR '')'' \<in> set '')[i2]'' \<and>
   getNames ''a[key1]'' False = Inr (''value11'', ''value12'') \<and>
   getNames ''(*a[key1])[i2]'' False = Inr (''(*value11)[i2]'', ''(*value12)[i2]'')"
  using getNames_map_value[of "''1''" "[]" "''a''" 0 False]
    getNames_map_value[of "''1''" "'')[i2]''" "''a''" 1 False]
  by (simp add: isDigit_def HasPrefix_def)


end
